theory Spec2Isabelle
  imports Complex_Main "HOL-Library.AList"
begin

section \<open>JavaScript values, strings and objects\<close>

text \<open>
  The operator console is a React application. The values that travel from the backend's
  JSON payloads into the code verified here are primitives: \<open>undefined\<close> (an absent
  field), \<open>null\<close>, booleans, numbers and strings. Numbers inside \<open>jsval\<close> are integers
  (identifiers, flags); coordinates, which are divided and rounded, are rationals and are
  kept in fields of their own. IEEE doubles are idealised as exact rationals throughout.
  Strings are lists of 8-bit characters; the case mapping and the white space of
  JavaScript are modelled on ASCII.
\<close>

datatype jsval = JUndefined | JNull | JBool bool | JNum int | JStr string

text \<open>ToBoolean: what \<open>if (v)\<close>, \<open>!v\<close>, \<open>a || b\<close> and \<open>filter(s => s.f)\<close> test.\<close>

fun truthy :: "jsval \<Rightarrow> bool" where
  "truthy JUndefined = False"
| "truthy JNull = False"
| "truthy (JBool b) = b"
| "truthy (JNum n) = (n \<noteq> 0)"
| "truthy (JStr s) = (s \<noteq> [])"

text \<open>\<open>a || b\<close> yields \<open>a\<close> itself when it is truthy, \<open>b\<close> otherwise.\<close>

definition js_or :: "jsval \<Rightarrow> jsval \<Rightarrow> jsval" where
  "js_or a b = (if truthy a then a else b)"

text \<open>
  \<open>a === b\<close> on primitives is equality of type and value, so it is HOL equality on
  \<open>jsval\<close> (there is no NaN among integers).
\<close>

definition strict_eq :: "jsval \<Rightarrow> jsval \<Rightarrow> bool" where
  "strict_eq a b = (a = b)"

subsection \<open>Decimal numerals\<close>

definition digit_char :: "nat \<Rightarrow> char" where
  "digit_char d = ''0123456789'' ! d"

fun show_nat :: "nat \<Rightarrow> string" where
  "show_nat n = (if n < 10 then [digit_char n] else show_nat (n div 10) @ [digit_char (n mod 10)])"

declare show_nat.simps [simp del]

definition show_int :: "int \<Rightarrow> string" where
  "show_int i = (if i < 0 then ''-'' @ show_nat (nat (- i)) else show_nat (nat i))"

text \<open>ToString, as a template literal and a property key apply it.\<close>

fun to_string :: "jsval \<Rightarrow> string" where
  "to_string JUndefined = ''undefined''"
| "to_string JNull = ''null''"
| "to_string (JBool b) = (if b then ''true'' else ''false'')"
| "to_string (JNum n) = show_int n"
| "to_string (JStr s) = s"

text \<open>
  \<open>Number.prototype.toFixed(1)\<close> for a finite number below \<open>10^21\<close>: take the integer
  \<open>n\<close> for which \<open>n / 10 - x\<close> is closest to zero (the larger one on a tie), write its
  digits, pad with zeros to two digits at least and put the point before the last
  digit. A negative number is printed as the minus sign followed by its absolute value.
\<close>

definition round_tenths :: "rat \<Rightarrow> nat" where
  "round_tenths x = nat \<lfloor>x * 10 + 1 / 2\<rfloor>"

definition toFixed1 :: "rat \<Rightarrow> string" where
  "toFixed1 x =
     (let n = round_tenths \<bar>x\<bar>;
          m = show_nat n;
          m' = (if length m \<le> 1 then replicate (2 - length m) CHR ''0'' @ m else m);
          k = length m'
      in (if x < 0 then ''-'' else []) @ take (k - 1) m' @ ''.'' @ drop (k - 1) m')"


subsection \<open>Objects as enumeration-ordered association lists\<close>

text \<open>
  A plain object is the list of its own properties in the order \<open>Object.entries\<close>,
  \<open>Object.values\<close> and \<open>forEach\<close> visit them: the array indices (canonical numerals
  below \<open>2^32 - 1\<close>) first, ascending, then the other keys in the order of their
  creation. Assigning to an existing key keeps its place. Assigning to the key
  \<open>__proto__\<close> replaces the prototype of the object instead of creating a property;
  the statement about the slot map that \<open>checkSlotChanges\<close> builds excludes that key.
\<close>

type_synonym 'v js_object = "(string \<times> 'v) list"

definition is_digit :: "char \<Rightarrow> bool" where
  "is_digit c = (c \<in> set ''0123456789'')"

definition dec_value :: "string \<Rightarrow> nat" where
  "dec_value s = foldl (\<lambda>a c. 10 * a + (of_char c - 48)) 0 s"

definition array_index :: "string \<Rightarrow> nat option" where
  "array_index s =
     (if s \<noteq> [] \<and> list_all is_digit s \<and> (s = ''0'' \<or> hd s \<noteq> CHR ''0'')
         \<and> dec_value s < 2 ^ 32 - 1
      then Some (dec_value s) else None)"

fun insert_index :: "nat \<Rightarrow> string \<Rightarrow> 'v \<Rightarrow> 'v js_object \<Rightarrow> 'v js_object" where
  "insert_index n k v [] = [(k, v)]"
| "insert_index n k v ((k', v') # rest) =
     (case array_index k' of
        Some m \<Rightarrow> if m < n then (k', v') # insert_index n k v rest
                  else (k, v) # (k', v') # rest
      | None \<Rightarrow> (k, v) # (k', v') # rest)"

text \<open>\<open>obj[k] = v\<close>\<close>

definition js_set :: "'v js_object \<Rightarrow> string \<Rightarrow> 'v \<Rightarrow> 'v js_object" where
  "js_set obj k v =
     (if k \<in> fst ` set obj then AList.update k v obj
      else case array_index k of
             None \<Rightarrow> obj @ [(k, v)]
           | Some n \<Rightarrow> insert_index n k v obj)"

text \<open>\<open>obj[k]\<close>, with \<open>None\<close> for \<open>undefined\<close>\<close>

definition js_get :: "'v js_object \<Rightarrow> string \<Rightarrow> 'v option" where
  "js_get obj k = map_of obj k"




section \<open>The notification context\<close>

text \<open>
  A slot as the backend reports it. The spread \<open>{...slot, isOccupied: ...}\<close> copies
  every field; the fields the context reads afterwards are these.
\<close>

record slot =
  s_id :: jsval
  s_slotId :: jsval
  s_isOccupied :: jsval
  s_status :: jsval
  s_name :: jsval
  s_plate :: jsval

record violation =
  v_id :: jsval
  v_license_plate :: jsval
  v_zone :: jsval
  v_timestamp :: jsval

datatype ntype = slot_available | slot_occupied | illegal_parking | warning | success

datatype ndata =
    AvailableData string jsval string
  | OccupiedData string jsval jsval string
  | ViolationData jsval jsval jsval jsval string
  | NoData

record notification =
  n_id :: nat
  n_type :: ntype
  n_message :: string
  n_data :: ndata

text \<open>
  The provider's state: the three \<open>useState\<close> cells and the two \<open>useRef\<close> cells that
  hold the previous snapshots. A notification's id is \<open>Date.now() + Math.random()\<close>;
  the counter \<open>next_id\<close> stands for that source of fresh ids. The notification's
  wall-clock timestamp, the sound and the timer that removes the notification ten
  seconds later are outside a single call and are not modelled.
\<close>

record nstate =
  notifications :: "notification list"
  activeViolations :: "violation list"
  slotStatus :: "slot js_object"
  prevSlots :: "slot js_object"
  prevViolations :: "violation list"
  next_id :: nat

definition addNotification :: "ntype \<Rightarrow> string \<Rightarrow> ndata \<Rightarrow> nstate \<Rightarrow> nstate" where
  "addNotification ty msg dat st =
     st\<lparr>notifications :=
          \<lparr>n_id = next_id st, n_type = ty, n_message = msg, n_data = dat\<rparr> # notifications st,
        next_id := Suc (next_id st)\<rparr>"

definition removeNotification :: "nat \<Rightarrow> nstate \<Rightarrow> nstate" where
  "removeNotification i st = st\<lparr>notifications := filter (\<lambda>n. n_id n \<noteq> i) (notifications st)\<rparr>"

subsection \<open>getSlotStatistics\<close>

record statistics =
  total :: int
  occupied :: int
  available :: int
  occupancyPercentage :: jsval
  slots :: "slot js_object"

definition getSlotStatistics :: "nstate \<Rightarrow> statistics" where
  "getSlotStatistics st =
     (let slots = map snd (slotStatus st);
          total = int (length slots);
          occupied = int (length (filter (\<lambda>s. truthy (s_isOccupied s)) slots));
          available = total - occupied;
          occupancyPercentage =
            (if total > 0 then JStr (toFixed1 ((of_int occupied / of_int total) * 100))
             else JNum 0)
      in \<lparr>total = total, occupied = occupied, available = available,
          occupancyPercentage = occupancyPercentage, slots = slotStatus st\<rparr>)"

subsection \<open>checkSlotChanges\<close>

text \<open>
  The argument of \<open>checkSlotChanges\<close> is what the poll received: an array of slots, an
  object keyed by slot id, or anything else. In an object, a value that is not itself an
  object (\<open>None\<close> here) is skipped; a \<open>null\<close> value, on which the later field access
  would throw, is not part of the modelled input.
\<close>

datatype slots_input =
    SlotArray "slot list"
  | SlotObject "slot option js_object"
  | SlotOther

text \<open>
  The array branch stores \<open>{...slot, isOccupied: slot.isOccupied || slot.status === 'occupied'}\<close>
  under \<open>slot.id || slot.slotId\<close>; the object branch stores each value that is an object
  under its key.
\<close>

definition normalize_slot :: "slot \<Rightarrow> slot" where
  "normalize_slot slot =
     slot\<lparr>s_isOccupied :=
            js_or (s_isOccupied slot) (JBool (strict_eq (s_status slot) (JStr ''occupied'')))\<rparr>"

definition array_step :: "slot js_object \<Rightarrow> slot \<Rightarrow> slot js_object" where
  "array_step currentSlotsMap slot =
     (let slotId = js_or (s_id slot) (s_slotId slot)
      in js_set currentSlotsMap (to_string slotId) (normalize_slot slot))"

definition object_step :: "slot js_object \<Rightarrow> string \<times> slot option \<Rightarrow> slot js_object" where
  "object_step currentSlotsMap e =
     (case e of (key, value) \<Rightarrow>
        (case value of Some v \<Rightarrow> js_set currentSlotsMap key v | None \<Rightarrow> currentSlotsMap))"

definition currentSlotsMap_of :: "slots_input \<Rightarrow> slot js_object" where
  "currentSlotsMap_of currentSlots =
     (case currentSlots of
        SlotArray xs \<Rightarrow> foldl array_step [] xs
      | SlotObject obj \<Rightarrow> foldl object_step [] obj
      | SlotOther \<Rightarrow> [])"




subsection \<open>checkViolationChanges\<close>

datatype violations_input = ViolationArray "violation list" | ViolationOther

text \<open>The test inside \<open>some\<close>: \<open>v\<close> is a previous violation.\<close>

definition same_violation :: "violation \<Rightarrow> violation \<Rightarrow> bool" where
  "same_violation violation v =
     (strict_eq (v_id v) (v_id violation)
      \<or> (strict_eq (v_license_plate v) (v_license_plate violation)
          \<and> strict_eq (v_timestamp v) (v_timestamp violation)))"

text \<open>The warning sign and its variation selector, in UTF-8.\<close>

definition warning_sign :: string where
  "warning_sign = [CHR 0xE2, CHR 0x9A, CHR 0xA0, CHR 0xEF, CHR 0xB8, CHR 0x8F]"

definition violation_change :: "violation list \<Rightarrow> nstate \<Rightarrow> violation \<Rightarrow> nstate" where
  "violation_change prev st violation =
     (let isNewViolation = \<not> list_ex (same_violation violation) prev
      in if isNewViolation then
           addNotification illegal_parking
             (warning_sign @ '' Illegal Parking Violation: ''
                @ to_string (js_or (v_license_plate violation) (JStr ''Unknown''))
                @ '' in '' @ to_string (js_or (v_zone violation) (JStr ''restricted zone'')))
             (ViolationData (v_id violation) (v_zone violation) (v_license_plate violation)
                (v_timestamp violation) ''HIGH'') st
         else st)"

definition checkViolationChanges :: "violations_input \<Rightarrow> nstate \<Rightarrow> nstate" where
  "checkViolationChanges currentViolations st =
     (let violations = (case currentViolations of ViolationArray vs \<Rightarrow> vs | ViolationOther \<Rightarrow> []);
          st' = foldl (violation_change (prevViolations st)) st violations
      in st'\<lparr>activeViolations := violations, prevViolations := violations\<rparr>)"

text \<open>
  The notifications a call has put in front of the list, oldest first, and how many of
  them have a given type and concern a given slot.
\<close>

definition emitted :: "nstate \<Rightarrow> nstate \<Rightarrow> notification list" where
  "emitted st st' = rev (take (length (notifications st') - length (notifications st)) (notifications st'))"



section \<open>The live overlay\<close>

text \<open>
  \<open>drawOverlay\<close> of the live feed reads the state of a slot from the \<open>slotStates\<close>
  object and decides the colour and the marker of the slot from this test.
\<close>

definition overlay_occupied :: "jsval js_object \<Rightarrow> string \<Rightarrow> bool" where
  "overlay_occupied slotStates slotId =
     (let state = (case js_get slotStates slotId of None \<Rightarrow> JUndefined | Some v \<Rightarrow> v)
      in strict_eq state (JStr ''OCCUPIED'') \<or> strict_eq state (JStr ''occupied'')
         \<or> strict_eq state (JStr ''OCCUPY''))"

section \<open>Plate masking\<close>

datatype js_error = TypeError | NetworkError

text \<open>\<open>toUpperCase\<close> on ASCII letters, \<open>includes\<close> as a search for a contiguous run.\<close>

definition upper_char :: "char \<Rightarrow> char" where
  "upper_char c =
     (let n = (of_char c :: nat) in if 97 \<le> n \<and> n \<le> 122 then char_of (n - 32) else c)"

definition toUpperCase :: "string \<Rightarrow> string" where
  "toUpperCase s = map upper_char s"

fun js_includes :: "string \<Rightarrow> string \<Rightarrow> bool" where
  "js_includes [] t = (t = [])"
| "js_includes (c # s) t = (take (length t) (c # s) = t \<or> js_includes s t)"

text \<open>
  \<open>maskPlate\<close> is defined twice, word for word, in the violations table and in the
  parking events page. A truthy plate that is not a string has no \<open>toUpperCase\<close>.
\<close>

definition maskPlate :: "jsval \<Rightarrow> js_error + string" where
  "maskPlate plate =
     (if \<not> truthy plate then Inr ''N/A''
      else case plate of
             JStr p \<Rightarrow>
               (let plateUpper = toUpperCase p
                in if js_includes plateUpper ''GOVT'' \<or> js_includes plateUpper ''ROYAL''
                   then Inr ''***ANONYMIZED***'' else Inr p)
           | _ \<Rightarrow> Inl TypeError)"

section \<open>The calibration editor\<close>

record rectangle =
  r_id :: string
  r_x :: rat
  r_y :: rat
  r_width :: rat
  r_height :: rat

text \<open>A value of the calibration mapping: an array of numbers, or anything else.\<close>

datatype coords = CoordArray "rat list" | CoordOther

record calibration_data =
  parking_slots :: "coords js_object option"
  illegal_zones :: "coords js_object option"

datatype mode = Slots | Illegal

record rectangles =
  rect_slots :: "rectangle list"
  rect_illegal :: "rectangle list"

record current_rect =
  startX :: rat
  startY :: rat
  endX :: rat
  endY :: rat

record editor =
  mode :: mode
  rectangles :: rectangles
  currentRect :: "current_rect option"
  isDrawing :: bool
  isSaving :: bool
  saveSuccess :: bool

subsection \<open>loadCalibration\<close>

text \<open>The function mapped over the entries: a rectangle, or \<open>null\<close> (\<open>None\<close>).\<close>

definition entry_rect :: "string \<times> coords \<Rightarrow> rectangle option" where
  "entry_rect e =
     (case e of (i, coords) \<Rightarrow>
        (case coords of
           CoordArray cs \<Rightarrow>
             if length cs = 4 then
               Some \<lparr>r_id = i, r_x = cs ! 0, r_y = cs ! 1,
                     r_width = cs ! 2 - cs ! 0, r_height = cs ! 3 - cs ! 1\<rparr>
             else None
         | CoordOther \<Rightarrow> None))"

text \<open>\<open>Object.entries(m).map(...).filter(Boolean)\<close>\<close>

definition load_entries :: "coords js_object \<Rightarrow> rectangle list" where
  "load_entries m = List.map_filter entry_rect m"

text \<open>
  The fetch either fails (the promise is rejected, or the answer has no fields to read),
  which the \<open>catch\<close> logs, or yields the data.
\<close>

definition loadCalibration :: "js_error + calibration_data \<Rightarrow> editor \<Rightarrow> editor" where
  "loadCalibration fetched st =
     (case fetched of
        Inl err \<Rightarrow> st
      | Inr data \<Rightarrow>
          (case (parking_slots data, illegal_zones data) of
             (Some ps, Some iz) \<Rightarrow>
               st\<lparr>rectangles := \<lparr>rect_slots = load_entries ps, rect_illegal = load_entries iz\<rparr>\<rparr>
           | _ \<Rightarrow> st))"

subsection \<open>handleSave\<close>




subsection \<open>Drawing\<close>

text \<open>
  The DOM the handlers read: the canvas and its size, the container and the corner of
  its bounding box, the image with its loading flag and natural size. A missing element
  is \<open>None\<close>. Division by a zero size gives Infinity or NaN in JavaScript and 0 here;
  the statements about scaled coordinates assume sizes that are not zero.
\<close>

record canvas =
  c_width :: rat
  c_height :: rat

record box =
  b_left :: rat
  b_top :: rat

record image =
  complete :: bool
  naturalWidth :: rat
  naturalHeight :: rat

record dom =
  canvasRef :: "canvas option"
  containerRef :: "box option"
  imageRef :: "image option"

record mouse_event =
  clientX :: rat
  clientY :: rat

definition getMousePos :: "dom \<Rightarrow> mouse_event \<Rightarrow> rat \<times> rat" where
  "getMousePos d e =
     (case (canvasRef d, containerRef d) of
        (Some cv, Some rect) \<Rightarrow> (clientX e - b_left rect, clientY e - b_top rect)
      | _ \<Rightarrow> (0, 0))"

text \<open>What \<open>drawCanvas\<close> passes to \<open>strokeRect\<close> for a stored rectangle.\<close>

definition toDisplay :: "canvas \<Rightarrow> image \<Rightarrow> rectangle \<Rightarrow> rat \<times> rat \<times> rat \<times> rat" where
  "toDisplay cv img rect =
     (let scaleX = c_width cv / naturalWidth img;
          scaleY = c_height cv / naturalHeight img;
          x = r_x rect * scaleX;
          y = r_y rect * scaleY;
          width = r_width rect * scaleX;
          height = r_height rect * scaleY
      in (x, y, width, height))"

text \<open>The rectangle \<open>handleMouseUp\<close> makes of the corners of a drawn box.\<close>

definition toNative :: "canvas \<Rightarrow> image \<Rightarrow> string \<Rightarrow> rat \<Rightarrow> rat \<Rightarrow> rat \<Rightarrow> rat \<Rightarrow> rectangle" where
  "toNative cv img i x1Canvas y1Canvas x2Canvas y2Canvas =
     (let scaleX = naturalWidth img / c_width cv;
          scaleY = naturalHeight img / c_height cv;
          x1 = x1Canvas * scaleX;
          y1 = y1Canvas * scaleY;
          x2 = x2Canvas * scaleX;
          y2 = y2Canvas * scaleY
      in \<lparr>r_id = i, r_x = x1, r_y = y1, r_width = x2 - x1, r_height = y2 - y1\<rparr>)"

text \<open>\<open>String.prototype.trim\<close>, on the ASCII white space.\<close>

definition is_space :: "char \<Rightarrow> bool" where
  "is_space c = (c \<in> set [CHR 0x20, CHR 0x09, CHR 0x0A, CHR 0x0B, CHR 0x0C, CHR 0x0D])"

definition trim :: "string \<Rightarrow> string" where
  "trim s = rev (dropWhile is_space (rev (dropWhile is_space s)))"

text \<open>\<open>setRectangles(prev => ({...prev, [mode]: [...prev[mode], newRect]}))\<close>\<close>

definition add_rect :: "mode \<Rightarrow> rectangle \<Rightarrow> rectangles \<Rightarrow> rectangles" where
  "add_rect m newRect prev =
     (case m of
        Slots \<Rightarrow> prev\<lparr>rect_slots := rect_slots prev @ [newRect]\<rparr>
      | Illegal \<Rightarrow> prev\<lparr>rect_illegal := rect_illegal prev @ [newRect]\<rparr>)"

text \<open>\<open>setIsDrawing(false); setCurrentRect(null)\<close>\<close>

definition idle :: "editor \<Rightarrow> editor" where
  "idle st = st\<lparr>isDrawing := False, currentRect := None\<rparr>"

text \<open>
  \<open>handleMouseUp\<close> takes the operator's answer to the prompt (\<open>None\<close> when the prompt
  is cancelled) and returns, with the new state, whether the prompt was shown.
\<close>

definition handleMouseUp :: "dom \<Rightarrow> mouse_event \<Rightarrow> string option \<Rightarrow> editor \<Rightarrow> bool \<times> editor" where
  "handleMouseUp d e reply st =
     (case currentRect st of
        None \<Rightarrow> (False, st)
      | Some cr \<Rightarrow>
          if \<not> isDrawing st then (False, st)
          else
            (case (canvasRef d, imageRef d) of
               (Some cv, Some img) \<Rightarrow>
                 if \<not> complete img then (False, idle st)
                 else
                   (let pos = getMousePos d e;
                        x1Canvas = min (startX cr) (fst pos);
                        y1Canvas = min (startY cr) (snd pos);
                        x2Canvas = max (startX cr) (fst pos);
                        y2Canvas = max (startY cr) (snd pos)
                    in if x2Canvas - x1Canvas > 20 \<and> y2Canvas - y1Canvas > 20 then
                         (case reply of
                            Some i \<Rightarrow>
                              if i \<noteq> [] \<and> trim i \<noteq> [] then
                                (True,
                                 idle (st\<lparr>rectangles :=
                                   add_rect (mode st)
                                     (toNative cv img (trim i) x1Canvas y1Canvas x2Canvas y2Canvas)
                                     (rectangles st)\<rparr>))
                              else (True, idle st)
                          | None \<Rightarrow> (True, idle st))
                       else (False, idle st))
             | _ \<Rightarrow> (False, idle st)))"

subsection \<open>Sample data\<close>

definition sample_slot :: "string \<Rightarrow> jsval \<Rightarrow> jsval \<Rightarrow> slot" where
  "sample_slot i occ stat =
     \<lparr>s_id = JStr i, s_slotId = JUndefined, s_isOccupied = occ, s_status = stat,
      s_name = JUndefined, s_plate = JUndefined\<rparr>"

definition sample_state :: "slot js_object \<Rightarrow> violation list \<Rightarrow> nstate" where
  "sample_state m vs =
     \<lparr>notifications = [], activeViolations = vs, slotStatus = m, prevSlots = m,
      prevViolations = vs, next_id = 0\<rparr>"

definition two_slots :: "slot js_object" where
  "two_slots = [(''A'', sample_slot ''A'' (JBool True) JUndefined),
                (''B'', sample_slot ''B'' (JBool False) JUndefined)]"

definition sample_canvas :: canvas where
  "sample_canvas = \<lparr>c_width = 640, c_height = 360\<rparr>"

definition sample_image :: image where
  "sample_image = \<lparr>complete = True, naturalWidth = 1280, naturalHeight = 720\<rparr>"

definition sample_rect :: rectangle where
  "sample_rect = \<lparr>r_id = ''A1'', r_x = 100, r_y = 100, r_width = 200, r_height = 200\<rparr>"

definition sample_editor :: editor where
  "sample_editor =
     \<lparr>mode = Slots, rectangles = \<lparr>rect_slots = [], rect_illegal = []\<rparr>, currentRect = None,
      isDrawing = False, isSaving = False, saveSuccess = False\<rparr>"


definition reversed_calibration :: calibration_data where
  "reversed_calibration =
     \<lparr>parking_slots = Some [(''A'', CoordArray [300, 300, 100, 100]), (''B'', CoordArray [1, 2, 3]),
                            (''C'', CoordOther)],
      illegal_zones = Some []\<rparr>"

definition sample_dom :: dom where
  "sample_dom =
     \<lparr>canvasRef = Some sample_canvas, containerRef = Some \<lparr>b_left = 0, b_top = 0\<rparr>,
      imageRef = Some sample_image\<rparr>"

definition drawing_editor :: editor where
  "drawing_editor =
     sample_editor\<lparr>currentRect := Some \<lparr>startX = 0, startY = 0, endX = 0, endY = 0\<rparr>,
                    isDrawing := True\<rparr>"

definition sample_violation :: "int \<Rightarrow> string \<Rightarrow> string \<Rightarrow> violation" where
  "sample_violation i p t =
     \<lparr>v_id = JNum i, v_license_plate = JStr p, v_zone = JStr ''Z1'', v_timestamp = JStr t\<rparr>"







section \<open>Properties of the statistics\<close>

lemma show_nat_small: "n < 10 \<Longrightarrow> show_nat n = [digit_char n]"
  by (simp add: show_nat.simps)

lemma show_nat_large: "\<not> n < 10 \<Longrightarrow> show_nat n = show_nat (n div 10) @ [digit_char (n mod 10)]"
  by (subst show_nat.simps) simp

lemma show_nat_not_Nil: "show_nat n \<noteq> []"
  by (cases "n < 10") (simp_all add: show_nat_small show_nat_large)

lemma toFixed1_nonneg:
  assumes "0 \<le> x"
  shows "toFixed1 x = show_nat (round_tenths x div 10) @ ''.'' @ show_nat (round_tenths x mod 10)"
proof -
  let ?n = "round_tenths x"
  have ax: "\<bar>x\<bar> = x" using assms by simp
  have neg: "\<not> x < 0" using assms by simp
  have last: "show_nat (?n mod 10) = [digit_char (?n mod 10)]"
    by (simp add: show_nat_small)
  show ?thesis
  proof (cases "?n < 10")
    case True
    then have m: "show_nat ?n = [digit_char ?n]" by (rule show_nat_small)
    have d: "?n div 10 = 0" "?n mod 10 = ?n" using True by simp_all
    have z: "show_nat 0 = ''0''" by (simp add: show_nat_small digit_char_def)
    show ?thesis
      unfolding toFixed1_def ax Let_def m last d z using neg by simp
  next
    case False
    then have m: "show_nat ?n = show_nat (?n div 10) @ [digit_char (?n mod 10)]"
      by (rule show_nat_large)
    have len: "\<not> length (show_nat (?n div 10) @ [digit_char (?n mod 10)]) \<le> 1"
      using show_nat_not_Nil [of "?n div 10"] by (cases "show_nat (?n div 10)") simp_all
    show ?thesis
      unfolding toFixed1_def ax Let_def m last using neg len by simp
  qed
qed

lemma tenth_near_aux:
  fixes f x :: rat
  assumes "f \<le> x * 10 + 1 / 2" and "x * 10 + 1 / 2 < f + 1"
  shows "\<bar>f / 10 - x\<bar> \<le> 1 / 20"
  using assms by linarith

lemma round_tenths_near:
  assumes "0 \<le> x"
  shows "\<bar>of_nat (round_tenths x) / 10 - x\<bar> \<le> 1 / 20"
proof -
  let ?f = "\<lfloor>x * 10 + 1 / 2\<rfloor>"
  have nonneg: "0 \<le> ?f" using assms by simp
  then have n: "(of_nat (round_tenths x) :: rat) = of_int ?f"
    by (simp add: round_tenths_def)
  have lo: "of_int ?f \<le> x * 10 + 1 / 2" by (rule of_int_floor_le)
  have hi: "x * 10 + 1 / 2 < of_int ?f + 1" by linarith
  show ?thesis unfolding n using lo hi by (rule tenth_near_aux)
qed

lemma length_filter_values:
  "length (filter P (map snd xs)) = length (filter (\<lambda>(k, s). P s) xs)"
  by (induction xs) auto

text \<open>
  Claim C10. For every slot mapping the record returned by \<open>getSlotStatistics\<close> is
  consistent: occupied plus available is the total, both lie between 0 and the total, and
  occupied is the number of slots of the mapping whose \<open>isOccupied\<close> field is true (truthy).
\<close>

theorem getSlotStatistics_consistent:
  "occupied (getSlotStatistics st) + available (getSlotStatistics st) = total (getSlotStatistics st)
   \<and> 0 \<le> occupied (getSlotStatistics st)
   \<and> occupied (getSlotStatistics st) \<le> total (getSlotStatistics st)
   \<and> 0 \<le> available (getSlotStatistics st)
   \<and> available (getSlotStatistics st) \<le> total (getSlotStatistics st)
   \<and> occupied (getSlotStatistics st) =
       int (length (filter (\<lambda>(k, s). truthy (s_isOccupied s)) (slotStatus st)))"
proof -
  have eq: "length (filter (\<lambda>s. truthy (s_isOccupied s)) (map snd (slotStatus st))) =
            length (filter (\<lambda>(k, s). truthy (s_isOccupied s)) (slotStatus st))"
    by (rule length_filter_values)
  show ?thesis
    by (simp add: getSlotStatistics_def Let_def case_prod_unfold comp_def)
qed

theorem getSlotStatistics_consistent_witness:
  "occupied (getSlotStatistics (sample_state two_slots [])) = 1
   \<and> available (getSlotStatistics (sample_state two_slots [])) = 1
   \<and> total (getSlotStatistics (sample_state two_slots [])) = 2"
  using getSlotStatistics_consistent [of "sample_state two_slots []"]
  by (simp add: getSlotStatistics_def sample_state_def two_slots_def sample_slot_def)

text \<open>
  Claim C3. \<open>getSlotStatistics\<close> returns the number of slots of the mapping as total, the
  number of slots whose \<open>isOccupied\<close> is true as occupied, their difference as available,
  and as occupancy percentage the number 0 when there is no slot and otherwise
  \<open>occupied / total * 100\<close> rounded to one decimal: the numeral printed by \<open>toFixed(1)\<close>
  has one fractional digit and denotes a tenth that is at most a twentieth away. On the
  empty mapping the result is all zeros, and on the mapping with the single occupied slot A
  the percentage reads 100.0.
\<close>

theorem getSlotStatistics_values:
  "total (getSlotStatistics st) = int (length (slotStatus st))
   \<and> occupied (getSlotStatistics st) =
       int (length (filter (\<lambda>(k, s). truthy (s_isOccupied s)) (slotStatus st)))
   \<and> available (getSlotStatistics st) = total (getSlotStatistics st) - occupied (getSlotStatistics st)
   \<and> (if slotStatus st = [] then occupancyPercentage (getSlotStatistics st) = JNum 0
       else \<exists>n. occupancyPercentage (getSlotStatistics st)
                   = JStr (show_nat (n div 10) @ ''.'' @ show_nat (n mod 10))
                \<and> \<bar>rat_of_nat n / 10
                     - rat_of_int (occupied (getSlotStatistics st))
                       / rat_of_int (total (getSlotStatistics st)) * 100\<bar> \<le> 1 / 20)
   \<and> getSlotStatistics (st\<lparr>slotStatus := []\<rparr>)
       = \<lparr>total = 0, occupied = 0, available = 0, occupancyPercentage = JNum 0, slots = []\<rparr>
   \<and> occupancyPercentage
         (getSlotStatistics (st\<lparr>slotStatus := [(''A'', s\<lparr>s_isOccupied := JBool True\<rparr>)]\<rparr>))
       = JStr ''100.0''"
proof -
  let ?g = "getSlotStatistics st"
  have eq: "length (filter (\<lambda>s. truthy (s_isOccupied s)) (map snd (slotStatus st))) =
            length (filter (\<lambda>(k, s). truthy (s_isOccupied s)) (slotStatus st))"
    by (rule length_filter_values)
  have t: "total ?g = int (length (slotStatus st))"
    by (simp add: getSlotStatistics_def Let_def)
  have oc: "occupied ?g = int (length (filter (\<lambda>(k, s). truthy (s_isOccupied s)) (slotStatus st)))"
    by (simp add: getSlotStatistics_def Let_def case_prod_unfold comp_def)
  have av: "available ?g = total ?g - occupied ?g"
    by (simp add: getSlotStatistics_def Let_def)
  have pct: "if slotStatus st = [] then occupancyPercentage ?g = JNum 0
       else \<exists>n. occupancyPercentage ?g
                   = JStr (show_nat (n div 10) @ ''.'' @ show_nat (n mod 10))
                \<and> \<bar>rat_of_nat n / 10
                     - rat_of_int (occupied ?g) / rat_of_int (total ?g) * 100\<bar> \<le> 1 / 20"
  proof (cases "slotStatus st = []")
    case True
    then show ?thesis by (simp add: getSlotStatistics_def Let_def)
  next
    case False
    let ?q = "rat_of_int (occupied ?g) / rat_of_int (total ?g) * 100"
    have pos: "0 < total ?g" using False by (simp add: t)
    have q0: "0 \<le> ?q" by (simp add: oc t)
    have "occupancyPercentage ?g = JStr (toFixed1 ?q)"
      using pos by (simp add: getSlotStatistics_def Let_def)
    then have "occupancyPercentage ?g
        = JStr (show_nat (round_tenths ?q div 10) @ ''.'' @ show_nat (round_tenths ?q mod 10))"
      by (simp only: toFixed1_nonneg [OF q0])
    moreover have "\<bar>rat_of_nat (round_tenths ?q) / 10 - ?q\<bar> \<le> 1 / 20"
      by (rule round_tenths_near [OF q0])
    ultimately show ?thesis using False by (simp only: if_False) blast
  qed
  have empty: "getSlotStatistics (st\<lparr>slotStatus := []\<rparr>)
       = \<lparr>total = 0, occupied = 0, available = 0, occupancyPercentage = JNum 0, slots = []\<rparr>"
    by (simp add: getSlotStatistics_def)
  have "toFixed1 (1 / 1 * 100) = ''100.0''" by code_simp
  then have full: "occupancyPercentage
         (getSlotStatistics (st\<lparr>slotStatus := [(''A'', s\<lparr>s_isOccupied := JBool True\<rparr>)]\<rparr>))
       = JStr ''100.0''"
    by (simp add: getSlotStatistics_def)
  show ?thesis using t oc av pct empty full by (intro conjI)
qed


theorem getSlotStatistics_values_witness:
  "total (getSlotStatistics (sample_state two_slots [])) = 2
   \<and> occupied (getSlotStatistics (sample_state two_slots [])) = 1
   \<and> available (getSlotStatistics (sample_state two_slots [])) = 1
   \<and> slotStatus (sample_state two_slots []) \<noteq> []
   \<and> (\<exists>n. occupancyPercentage (getSlotStatistics (sample_state two_slots []))
                   = JStr (show_nat (n div 10) @ ''.'' @ show_nat (n mod 10))
          \<and> \<bar>rat_of_nat n / 10 - 1 / 2 * 100\<bar> \<le> 1 / 20)"
proof -
  have ne: "slotStatus (sample_state two_slots []) \<noteq> []"
    by (simp add: sample_state_def two_slots_def)
  have len: "length (slotStatus (sample_state two_slots [])) = 2"
    by (simp add: sample_state_def two_slots_def)
  have occ: "length (filter (\<lambda>(k, s). truthy (s_isOccupied s)) (slotStatus (sample_state two_slots []))) = 1"
    by (simp add: sample_state_def two_slots_def sample_slot_def)
  note v = getSlotStatistics_values [of "sample_state two_slots []" undefined]
  have t: "total (getSlotStatistics (sample_state two_slots [])) = 2"
    using v by (simp add: len)
  have oc: "occupied (getSlotStatistics (sample_state two_slots [])) = 1"
    using v by (simp add: occ)
  have av: "available (getSlotStatistics (sample_state two_slots [])) = 1"
    using v t oc by simp
  have "\<exists>n. occupancyPercentage (getSlotStatistics (sample_state two_slots []))
                   = JStr (show_nat (n div 10) @ ''.'' @ show_nat (n mod 10))
          \<and> \<bar>rat_of_nat n / 10
                - rat_of_int (occupied (getSlotStatistics (sample_state two_slots [])))
                  / rat_of_int (total (getSlotStatistics (sample_state two_slots []))) * 100\<bar>
              \<le> 1 / 20"
    using v [unfolded if_not_P [OF ne]] by blast
  then have pct: "\<exists>n. occupancyPercentage (getSlotStatistics (sample_state two_slots []))
                   = JStr (show_nat (n div 10) @ ''.'' @ show_nat (n mod 10))
          \<and> \<bar>rat_of_nat n / 10 - 1 / 2 * 100\<bar> \<le> 1 / 20"
    unfolding t oc by simp
  show ?thesis using t oc av ne pct by (intro conjI)
qed

section \<open>Properties of the plate masking\<close>

lemma take_length_eq_iff: "take (length t) s = t \<longleftrightarrow> (\<exists>suf. s = t @ suf)"
  by (metis append_eq_conv_conj append_take_drop_id)

lemma js_includes_iff: "js_includes s t \<longleftrightarrow> (\<exists>pre suf. s = pre @ t @ suf)"
proof (induction s)
  case Nil
  then show ?case by auto
next
  case (Cons c s)
  show ?case
  proof
    assume "js_includes (c # s) t"
    then consider "take (length t) (c # s) = t" | "js_includes s t" by auto
    then show "\<exists>pre suf. c # s = pre @ t @ suf"
    proof cases
      case 1
      then obtain suf where "c # s = t @ suf" using take_length_eq_iff by blast
      then have "c # s = [] @ t @ suf" by simp
      then show ?thesis by blast
    next
      case 2
      then obtain pre suf where "s = pre @ t @ suf" using Cons.IH by blast
      then have "c # s = (c # pre) @ t @ suf" by simp
      then show ?thesis by blast
    qed
  next
    assume "\<exists>pre suf. c # s = pre @ t @ suf"
    then obtain pre suf where e: "c # s = pre @ t @ suf" by blast
    show "js_includes (c # s) t"
    proof (cases pre)
      case Nil
      then have "take (length t) (c # s) = t" using e take_length_eq_iff by auto
      then show ?thesis by simp
    next
      case (Cons a pre')
      then have "s = pre' @ t @ suf" using e by simp
      then have "js_includes s t" using Cons.IH by blast
      then show ?thesis by simp
    qed
  qed
qed

text \<open>
  Claim C8. For a plate string, \<open>maskPlate\<close> answers \<open>***ANONYMIZED***\<close> exactly when
  the upper-cased plate contains \<open>GOVT\<close> or \<open>ROYAL\<close> somewhere (after any prefix, before
  any suffix), gives the plate back unchanged when it contains neither, and answers
  \<open>N/A\<close> when the plate is empty or missing (undefined or null).
\<close>

theorem maskPlate_spec:
  "maskPlate (JStr p) =
     Inr (if p = [] then ''N/A''
          else if (\<exists>pre suf. toUpperCase p = pre @ ''GOVT'' @ suf)
                  \<or> (\<exists>pre suf. toUpperCase p = pre @ ''ROYAL'' @ suf)
               then ''***ANONYMIZED***'' else p)
   \<and> maskPlate JUndefined = Inr ''N/A''
   \<and> maskPlate JNull = Inr ''N/A''"
  by (simp add: maskPlate_def Let_def js_includes_iff)

theorem maskPlate_spec_witness:
  "maskPlate (JStr ''BP-govt-7'') = Inr ''***ANONYMIZED***''
   \<and> maskPlate (JStr ''BP-1-A1234'') = Inr ''BP-1-A1234''
   \<and> maskPlate (JStr []) = Inr ''N/A''"
proof -
  have "toUpperCase ''BP-govt-7'' = ''BP-GOVT-7''" by code_simp
  then have "toUpperCase ''BP-govt-7'' = ''BP-'' @ ''GOVT'' @ ''-7''" by simp
  then have ex: "\<exists>pre suf. toUpperCase ''BP-govt-7'' = pre @ ''GOVT'' @ suf" by blast
  have a: "maskPlate (JStr ''BP-govt-7'') = Inr ''***ANONYMIZED***''"
    using maskPlate_spec [of "''BP-govt-7''"] ex by simp
  have b: "maskPlate (JStr ''BP-1-A1234'') = Inr ''BP-1-A1234''" by code_simp
  have c: "maskPlate (JStr []) = Inr ''N/A''" using maskPlate_spec [of "[]"] by simp
  show ?thesis using a b c by simp
qed

section \<open>Properties of the coordinate mapping\<close>

text \<open>
  Claim C7. With positive canvas and natural sizes, \<open>drawCanvas\<close> multiplies x, y, width
  and height of a rectangle by the scale of its axis (displayed size over natural size),
  \<open>handleMouseUp\<close> divides the corners of a displayed box by the same scales, and mapping
  a rectangle to display space and back to native space returns the rectangle, exactly
  over the rationals.
\<close>

theorem toNative_toDisplay:
  assumes "0 < c_width cv" and "0 < c_height cv"
    and "0 < naturalWidth img" and "0 < naturalHeight img"
  shows "toDisplay cv img R =
           (r_x R * (c_width cv / naturalWidth img), r_y R * (c_height cv / naturalHeight img),
            r_width R * (c_width cv / naturalWidth img),
            r_height R * (c_height cv / naturalHeight img))
         \<and> toNative cv img i a b c d =
           \<lparr>r_id = i, r_x = a / (c_width cv / naturalWidth img),
            r_y = b / (c_height cv / naturalHeight img),
            r_width = c / (c_width cv / naturalWidth img) - a / (c_width cv / naturalWidth img),
            r_height = d / (c_height cv / naturalHeight img) - b / (c_height cv / naturalHeight img)\<rparr>
         \<and> (case toDisplay cv img R of (x, y, w, h) \<Rightarrow>
               toNative cv img (r_id R) x y (x + w) (y + h)) = R"
proof -
  have disp: "toDisplay cv img R =
           (r_x R * (c_width cv / naturalWidth img), r_y R * (c_height cv / naturalHeight img),
            r_width R * (c_width cv / naturalWidth img),
            r_height R * (c_height cv / naturalHeight img))"
    by (simp add: toDisplay_def Let_def)
  have nt: "toNative cv img i a b c d =
           \<lparr>r_id = i, r_x = a / (c_width cv / naturalWidth img),
            r_y = b / (c_height cv / naturalHeight img),
            r_width = c / (c_width cv / naturalWidth img) - a / (c_width cv / naturalWidth img),
            r_height = d / (c_height cv / naturalHeight img) - b / (c_height cv / naturalHeight img)\<rparr>"
    by (simp add: toNative_def Let_def)
  have rt: "(case toDisplay cv img R of (x, y, w, h) \<Rightarrow>
               toNative cv img (r_id R) x y (x + w) (y + h)) = R"
    using assms by (simp add: toDisplay_def toNative_def Let_def algebra_simps)
  show ?thesis using disp nt rt by (intro conjI)
qed

theorem toNative_toDisplay_witness:
  "0 < c_width sample_canvas \<and> 0 < c_height sample_canvas
   \<and> 0 < naturalWidth sample_image \<and> 0 < naturalHeight sample_image
   \<and> toDisplay sample_canvas sample_image sample_rect = (50, 50, 100, 100)
   \<and> toNative sample_canvas sample_image ''A1'' 50 50 150 150 = sample_rect"
proof -
  have p: "0 < c_width sample_canvas" "0 < c_height sample_canvas"
      "0 < naturalWidth sample_image" "0 < naturalHeight sample_image"
    by (simp_all add: sample_canvas_def sample_image_def)
  note t = toNative_toDisplay [OF p, of sample_rect "''A1''" 50 50 150 150]
  have d: "toDisplay sample_canvas sample_image sample_rect = (50, 50, 100, 100)"
    using t by (simp add: sample_canvas_def sample_image_def sample_rect_def)
  have "(case toDisplay sample_canvas sample_image sample_rect of (x, y, w, h) \<Rightarrow>
               toNative sample_canvas sample_image (r_id sample_rect) x y (x + w) (y + h))
        = sample_rect"
    using t by blast
  then have n: "toNative sample_canvas sample_image ''A1'' 50 50 150 150 = sample_rect"
    unfolding d by (simp add: sample_rect_def)
  show ?thesis using p d n by (intro conjI)
qed

section \<open>Properties of objects\<close>

lemma insert_index_keys: "fst ` set (insert_index n k v obj) = insert k (fst ` set obj)"
proof (induction obj)
  case Nil
  then show ?case by simp
next
  case (Cons e obj)
  obtain k' v' where e: "e = (k', v')" by (cases e)
  show ?case
  proof (cases "array_index k'")
    case None
    then show ?thesis by (simp add: e)
  next
    case (Some m)
    then show ?thesis using Cons.IH by (simp add: e insert_commute)
  qed
qed




lemma js_set_keys: "fst ` set (js_set obj k v) = insert k (fst ` set obj)"
proof (cases "k \<in> fst ` set obj")
  case True
  then show ?thesis using dom_update [of k v obj] by (simp add: js_set_def)
next
  case False
  then show ?thesis
    by (cases "array_index k") (simp_all add: js_set_def insert_index_keys)
qed



section \<open>Properties of loading and saving a calibration\<close>

lemma length_four: "length cs = 4 \<longleftrightarrow> (\<exists>a b c d. cs = [a, b, c, d])"
  by (auto simp: length_Suc_conv numeral_eq_Suc)

lemma load_entries_Nil: "load_entries [] = []"
  by (simp add: load_entries_def List.map_filter_simps)

lemma load_entries_Cons:
  "load_entries (e # m) =
     (case entry_rect e of None \<Rightarrow> load_entries m | Some r \<Rightarrow> r # load_entries m)"
  by (simp add: load_entries_def List.map_filter_simps split: option.splits)

lemma entry_rect_four:
  "entry_rect (i, CoordArray [x1, y1, x2, y2]) =
     Some \<lparr>r_id = i, r_x = x1, r_y = y1, r_width = x2 - x1, r_height = y2 - y1\<rparr>"
  by (simp add: entry_rect_def)

lemma entry_rect_other: "entry_rect (i, CoordOther) = None"
  by (simp add: entry_rect_def)

lemma entry_rect_short: "length cs \<noteq> 4 \<Longrightarrow> entry_rect (i, CoordArray cs) = None"
  by (simp add: entry_rect_def)



lemma c4: "length cs \<noteq> 4 \<Longrightarrow> (case cs of [x1, y1, x2, y2] \<Rightarrow>
                [\<lparr>r_id = i, r_x = x1, r_y = y1, r_width = x2 - x1, r_height = y2 - y1\<rparr>]
             | _ \<Rightarrow> []) = []"
  by (auto split: list.splits)



lemma b1: "(case (i, CoordOther) of (i, CoordArray [x1, y1, x2, y2]) \<Rightarrow>
        [\<lparr>r_id = i, r_x = x1, r_y = y1, r_width = x2 - x1, r_height = y2 - y1\<rparr>]
     | _ \<Rightarrow> []) = []"
  by simp

lemma b2: "(case (i, CoordArray [a, b, c, d]) of (i, CoordArray [x1, y1, x2, y2]) \<Rightarrow>
        [\<lparr>r_id = i, r_x = x1, r_y = y1, r_width = x2 - x1, r_height = y2 - y1\<rparr>]
     | _ \<Rightarrow> []) = [\<lparr>r_id = i, r_x = a, r_y = b, r_width = c - a, r_height = d - b\<rparr>]"
  by simp

lemma b3: "length cs \<noteq> 4 \<Longrightarrow> (case (i, CoordArray cs) of (i, CoordArray [x1, y1, x2, y2]) \<Rightarrow>
        [\<lparr>r_id = i, r_x = x1, r_y = y1, r_width = x2 - x1, r_height = y2 - y1\<rparr>]
     | _ \<Rightarrow> []) = []"
  using c4 [of cs i] by simp


lemma body_eq:
  "(case e of (i, CoordArray [x1, y1, x2, y2]) \<Rightarrow>
        [\<lparr>r_id = i, r_x = x1, r_y = y1, r_width = x2 - x1, r_height = y2 - y1\<rparr>]
     | _ \<Rightarrow> [])
   = (case entry_rect e of None \<Rightarrow> [] | Some r \<Rightarrow> [r])"
proof -
  obtain i c where e: "e = (i, c)" by (cases e)
  show ?thesis
  proof (cases c)
    case CoordOther
    show ?thesis unfolding e CoordOther b1 entry_rect_other by simp
  next
    case (CoordArray cs)
    show ?thesis
    proof (cases "length cs = 4")
      case True
      then have "\<exists>a b c d. cs = [a, b, c, d]" by (simp only: length_four)
      then obtain x1 y1 x2 y2 where cs: "cs = [x1, y1, x2, y2]" by blast
      show ?thesis unfolding e CoordArray cs b2 entry_rect_four by simp
    next
      case False
      show ?thesis unfolding e CoordArray b3 [OF False] entry_rect_short [OF False] by simp
    qed
  qed
qed

lemma map_filter_concat:
  "List.map_filter f m = concat (map (\<lambda>x. case f x of None \<Rightarrow> [] | Some r \<Rightarrow> [r]) m)"
  by (induction m) (simp_all add: List.map_filter_simps split: option.splits)

lemma load_entries_comprehension:
  "load_entries m =
     [\<lparr>r_id = i, r_x = x1, r_y = y1, r_width = x2 - x1, r_height = y2 - y1\<rparr>.
        (i, CoordArray [x1, y1, x2, y2]) \<leftarrow> m]"
  unfolding load_entries_def map_filter_concat body_eq ..


text \<open>
  Claim C4, as the code has it. A failed fetch and a payload that lacks one of the two
  collections leave the editor as it is. Otherwise each collection is replaced by the
  rectangles of exactly those entries whose value is an array of four members, in the
  order of the payload, each converted to \<open>{id, x: x1, y: y1, width: x2 - x1, height: y2 - y1}\<close>;
  every other entry is dropped. The members are not compared with each other.
\<close>

theorem loadCalibration_four_members:
  "loadCalibration (Inl err) st = st
   \<and> (parking_slots data = None \<or> illegal_zones data = None
        \<longrightarrow> loadCalibration (Inr data) st = st)
   \<and> (parking_slots data = Some ps \<and> illegal_zones data = Some iz
        \<longrightarrow> loadCalibration (Inr data) st =
            st\<lparr>rectangles :=
               \<lparr>rect_slots =
                  [\<lparr>r_id = i, r_x = x1, r_y = y1, r_width = x2 - x1, r_height = y2 - y1\<rparr>.
                     (i, CoordArray [x1, y1, x2, y2]) \<leftarrow> ps],
                rect_illegal =
                  [\<lparr>r_id = i, r_x = x1, r_y = y1, r_width = x2 - x1, r_height = y2 - y1\<rparr>.
                     (i, CoordArray [x1, y1, x2, y2]) \<leftarrow> iz]\<rparr>\<rparr>)"
proof -
  have a: "loadCalibration (Inl err) st = st"
    by (simp add: loadCalibration_def)
  have b: "parking_slots data = None \<or> illegal_zones data = None
        \<longrightarrow> loadCalibration (Inr data) st = st"
    by (auto simp: loadCalibration_def split: option.splits)
  have c: "parking_slots data = Some ps \<and> illegal_zones data = Some iz
        \<longrightarrow> loadCalibration (Inr data) st =
            st\<lparr>rectangles := \<lparr>rect_slots = load_entries ps, rect_illegal = load_entries iz\<rparr>\<rparr>"
    by (simp add: loadCalibration_def)
  show ?thesis using a b c unfolding load_entries_comprehension by (intro conjI)
qed

theorem loadCalibration_four_members_witness:
  "loadCalibration (Inr reversed_calibration) sample_editor =
     sample_editor\<lparr>rectangles :=
       \<lparr>rect_slots = [\<lparr>r_id = ''A'', r_x = 300, r_y = 300, r_width = - 200, r_height = - 200\<rparr>],
        rect_illegal = []\<rparr>\<rparr>"
proof -
  have p: "parking_slots reversed_calibration
             = Some [(''A'', CoordArray [300, 300, 100, 100]), (''B'', CoordArray [1, 2, 3]),
                     (''C'', CoordOther)]
           \<and> illegal_zones reversed_calibration = Some []"
    by (simp add: reversed_calibration_def)
  show ?thesis
    using loadCalibration_four_members [of undefined sample_editor reversed_calibration
        "[(''A'', CoordArray [300, 300, 100, 100]), (''B'', CoordArray [1, 2, 3]), (''C'', CoordOther)]"
        "[]"] p
    by simp
qed

text \<open>
  An entry whose second corner lies above and to the left of the first is kept, with a
  negative width and height.
\<close>

theorem loadCalibration_keeps_reversed_corners:
  "rect_slots (rectangles (loadCalibration (Inr reversed_calibration) sample_editor))
     = [\<lparr>r_id = ''A'', r_x = 300, r_y = 300, r_width = - 200, r_height = - 200\<rparr>]
   \<and> \<not> (300 :: rat) < 100"
  by (simp add: loadCalibration_def reversed_calibration_def load_entries_Cons load_entries_Nil
      entry_rect_def)









section \<open>Properties of the drawing state machine\<close>

lemma trim_Nil: "trim [] = []"
  by (simp add: trim_def)

lemma span_abs: "max a b - min a b = \<bar>b - a\<bar>" for a b :: rat
  by (simp add: max_def min_def abs_if)

lemma idle_fields:
  "isDrawing (idle st) = False" "currentRect (idle st) = None"
  "rectangles (idle st) = rectangles st" "mode (idle st) = mode st"
  by (simp_all add: idle_def)

lemma handleMouseUp_not_ready:
  assumes "isDrawing st" and "currentRect st = Some cr"
    and "canvasRef d = None \<or> imageRef d = None \<or> (\<exists>img. imageRef d = Some img \<and> \<not> complete img)"
  shows "handleMouseUp d e reply st = (False, idle st)"
  using assms by (auto simp: handleMouseUp_def split: option.splits)

lemma handleMouseUp_ready:
  assumes "isDrawing st" and "currentRect st = Some cr"
    and "canvasRef d = Some cv" and "imageRef d = Some img" and "complete img"
    and "getMousePos d e = (px, py)"
  shows "handleMouseUp d e reply st =
     (if 20 < \<bar>px - startX cr\<bar> \<and> 20 < \<bar>py - startY cr\<bar> then
        (True, case reply of
                 None \<Rightarrow> idle st
               | Some i \<Rightarrow>
                   if trim i = [] then idle st
                   else idle (st\<lparr>rectangles :=
                          add_rect (mode st)
                            (toNative cv img (trim i) (min (startX cr) px) (min (startY cr) py)
                               (max (startX cr) px) (max (startY cr) py))
                            (rectangles st)\<rparr>))
      else (False, idle st))"
proof -
  have t: "\<And>i. (i \<noteq> [] \<and> trim i \<noteq> []) = (trim i \<noteq> [])"
    using trim_Nil by auto
  show ?thesis
    using assms
    by (simp add: handleMouseUp_def Let_def span_abs t split: option.splits)
qed

text \<open>
  Claim C6, as the code has it. On \<open>handleMouseUp\<close> while drawing: when the canvas or
  the image is missing or the image is not loaded, nothing is asked and nothing is added.
  Otherwise, when the displayed width or height of the drawn box is at most 20 pixels,
  the box is discarded: no prompt, the rectangles are unchanged. When both exceed 20
  pixels the operator is asked for an id, and only when the trimmed answer is not empty
  the box, converted to native coordinates and named by the trimmed answer, is appended
  to the collection of the current mode (the other collection is unchanged). In every
  case the editor is idle afterwards: \<open>isDrawing\<close> is false and there is no rectangle
  in progress.
\<close>

theorem handleMouseUp_threshold:
  assumes "isDrawing st" and "currentRect st = Some cr"
  shows "(canvasRef d = None \<or> imageRef d = None \<or> (\<exists>img. imageRef d = Some img \<and> \<not> complete img)
            \<longrightarrow> handleMouseUp d e reply st = (False, idle st))
     \<and> (canvasRef d = Some cv \<and> imageRef d = Some img \<and> complete img
          \<and> getMousePos d e = (px, py)
            \<longrightarrow> handleMouseUp d e reply st =
                (if 20 < \<bar>px - startX cr\<bar> \<and> 20 < \<bar>py - startY cr\<bar> then
                   (True, case reply of
                            None \<Rightarrow> idle st
                          | Some i \<Rightarrow>
                              if trim i = [] then idle st
                              else idle (st\<lparr>rectangles :=
                                     add_rect (mode st)
                                       (toNative cv img (trim i)
                                          (min (startX cr) px) (min (startY cr) py)
                                          (max (startX cr) px) (max (startY cr) py))
                                       (rectangles st)\<rparr>))
                 else (False, idle st)))
     \<and> isDrawing (snd (handleMouseUp d e reply st)) = False
     \<and> currentRect (snd (handleMouseUp d e reply st)) = None
     \<and> rectangles (idle st) = rectangles st
     \<and> add_rect Slots r rs = rs\<lparr>rect_slots := rect_slots rs @ [r]\<rparr>
     \<and> add_rect Illegal r rs = rs\<lparr>rect_illegal := rect_illegal rs @ [r]\<rparr>"
proof -
  have a: "canvasRef d = None \<or> imageRef d = None \<or> (\<exists>img. imageRef d = Some img \<and> \<not> complete img)
            \<longrightarrow> handleMouseUp d e reply st = (False, idle st)"
    using handleMouseUp_not_ready [OF assms] by blast
  have b: "canvasRef d = Some cv \<and> imageRef d = Some img \<and> complete img
          \<and> getMousePos d e = (px, py)
            \<longrightarrow> handleMouseUp d e reply st =
                (if 20 < \<bar>px - startX cr\<bar> \<and> 20 < \<bar>py - startY cr\<bar> then
                   (True, case reply of
                            None \<Rightarrow> idle st
                          | Some i \<Rightarrow>
                              if trim i = [] then idle st
                              else idle (st\<lparr>rectangles :=
                                     add_rect (mode st)
                                       (toNative cv img (trim i)
                                          (min (startX cr) px) (min (startY cr) py)
                                          (max (startX cr) px) (max (startY cr) py))
                                       (rectangles st)\<rparr>))
                 else (False, idle st))"
    using handleMouseUp_ready [OF assms] by blast
  have "\<exists>s. snd (handleMouseUp d e reply st) = idle s"
  proof (cases "canvasRef d = None \<or> imageRef d = None
                 \<or> (\<exists>img. imageRef d = Some img \<and> \<not> complete img)")
    case True
    then have "handleMouseUp d e reply st = (False, idle st)"
      by (rule handleMouseUp_not_ready [OF assms])
    then show ?thesis by auto
  next
    case False
    then obtain cv' img' where r: "canvasRef d = Some cv'" "imageRef d = Some img'" "complete img'"
      by auto
    obtain px' py' where m: "getMousePos d e = (px', py')" by (cases "getMousePos d e")
    show ?thesis
      unfolding handleMouseUp_ready [OF assms r m]
      by (auto split: option.splits)
  qed
  then obtain s where s: "snd (handleMouseUp d e reply st) = idle s" by blast
  have c: "isDrawing (snd (handleMouseUp d e reply st)) = False"
    and c': "currentRect (snd (handleMouseUp d e reply st)) = None"
    unfolding s by (simp_all add: idle_fields)
  have f: "rectangles (idle st) = rectangles st" by (simp add: idle_fields)
  have g: "add_rect Slots r rs = rs\<lparr>rect_slots := rect_slots rs @ [r]\<rparr>"
    and g': "add_rect Illegal r rs = rs\<lparr>rect_illegal := rect_illegal rs @ [r]\<rparr>"
    by (simp_all add: add_rect_def)
  show ?thesis using a b c c' f g g' by (intro conjI)
qed

theorem handleMouseUp_threshold_witness:
  "isDrawing drawing_editor
   \<and> currentRect drawing_editor = Some \<lparr>startX = 0, startY = 0, endX = 0, endY = 0\<rparr>
   \<and> handleMouseUp sample_dom \<lparr>clientX = 200, clientY = 150\<rparr> (Some '' A1 '') drawing_editor
       = (True, idle (drawing_editor\<lparr>rectangles :=
            \<lparr>rect_slots = [\<lparr>r_id = ''A1'', r_x = 0, r_y = 0, r_width = 400, r_height = 300\<rparr>],
             rect_illegal = []\<rparr>\<rparr>))
   \<and> handleMouseUp sample_dom \<lparr>clientX = 20, clientY = 150\<rparr> (Some '' A1 '') drawing_editor
       = (False, idle drawing_editor)"
proof -
  have h1: "isDrawing drawing_editor"
    and h2: "currentRect drawing_editor = Some \<lparr>startX = 0, startY = 0, endX = 0, endY = 0\<rparr>"
    by (simp_all add: drawing_editor_def sample_editor_def)
  have r: "canvasRef sample_dom = Some sample_canvas \<and> imageRef sample_dom = Some sample_image
           \<and> complete sample_image"
    by (simp add: sample_dom_def sample_image_def)
  have m1: "getMousePos sample_dom \<lparr>clientX = 200, clientY = 150\<rparr> = (200, 150)"
    and m2: "getMousePos sample_dom \<lparr>clientX = 20, clientY = 150\<rparr> = (20, 150)"
    by (simp_all add: getMousePos_def sample_dom_def)
  have tr: "trim '' A1 '' = ''A1''" by code_simp
  have md: "mode drawing_editor = Slots" "rectangles drawing_editor = \<lparr>rect_slots = [], rect_illegal = []\<rparr>"
    by (simp_all add: drawing_editor_def sample_editor_def)
  have nat: "toNative sample_canvas sample_image ''A1'' 0 0 200 150
          = \<lparr>r_id = ''A1'', r_x = 0, r_y = 0, r_width = 400, r_height = 300\<rparr>"
    by (simp add: toNative_def sample_canvas_def sample_image_def)
  note t1 = handleMouseUp_threshold [OF h1 h2, where d = sample_dom and cv = sample_canvas
      and img = sample_image and e = "\<lparr>clientX = 200, clientY = 150\<rparr>" and px = 200 and py = 150
      and reply = "Some '' A1 ''"]
  note t2 = handleMouseUp_threshold [OF h1 h2, where d = sample_dom and cv = sample_canvas
      and img = sample_image and e = "\<lparr>clientX = 20, clientY = 150\<rparr>" and px = 20 and py = 150
      and reply = "Some '' A1 ''"]
  have a: "handleMouseUp sample_dom \<lparr>clientX = 200, clientY = 150\<rparr> (Some '' A1 '') drawing_editor
       = (True, idle (drawing_editor\<lparr>rectangles :=
            \<lparr>rect_slots = [\<lparr>r_id = ''A1'', r_x = 0, r_y = 0, r_width = 400, r_height = 300\<rparr>],
             rect_illegal = []\<rparr>\<rparr>))"
    using t1 r m1 by (simp add: tr md nat add_rect_def)
  have b: "handleMouseUp sample_dom \<lparr>clientX = 20, clientY = 150\<rparr> (Some '' A1 '') drawing_editor
       = (False, idle drawing_editor)"
    using t2 r m2 by simp
  show ?thesis using h1 h2 a b by (intro conjI)
qed

text \<open>
  A box that is exactly 20 pixels wide is not below 20 pixels, and it is discarded all the
  same: the prompt is not shown and no rectangle is added.
\<close>

theorem handleMouseUp_discards_width_20:
  "handleMouseUp sample_dom \<lparr>clientX = 20, clientY = 100\<rparr> (Some ''A1'') drawing_editor
     = (False, idle drawing_editor)
   \<and> rectangles (idle drawing_editor) = rectangles drawing_editor
   \<and> \<not> \<bar>20 - startX \<lparr>startX = 0, startY = 0, endX = 0, endY = 0\<rparr>\<bar> < (20 :: rat)
   \<and> \<not> \<bar>100 - startY \<lparr>startX = 0, startY = 0, endX = 0, endY = 0\<rparr>\<bar> < (20 :: rat)"
  by (simp add: handleMouseUp_def drawing_editor_def sample_editor_def sample_dom_def
      sample_canvas_def sample_image_def getMousePos_def idle_def Let_def)

section \<open>Properties of the occupancy normalization\<close>

lemma normalize_slot_truthy:
  "truthy (s_isOccupied (normalize_slot slot))
     = (truthy (s_isOccupied slot) \<or> s_status slot = JStr ''occupied'')"
  by (simp add: normalize_slot_def js_or_def strict_eq_def)

lemma overlay_occupied_single:
  "overlay_occupied [(slotId, state)] slotId
     = (state = JStr ''OCCUPIED'' \<or> state = JStr ''occupied'' \<or> state = JStr ''OCCUPY'')"
  by (simp add: overlay_occupied_def js_get_def strict_eq_def)

text \<open>
  Claim C9 at the slot \<open>{id: 'A1', status: 'OCCUPIED'}\<close>, the shape the dashboard hands to
  \<open>checkSlotChanges\<close> after upper-casing the status: the notification path normalizes the
  slot to not occupied, while the overlay, reading the same status, shows it occupied.
\<close>

theorem normalization_disagrees_on_upper_case:
  "truthy (s_isOccupied (normalize_slot (sample_slot ''A1'' JUndefined (JStr ''OCCUPIED'')))) = False
   \<and> map (\<lambda>(k, s). (k, truthy (s_isOccupied s)))
         (currentSlotsMap_of (SlotArray [sample_slot ''A1'' JUndefined (JStr ''OCCUPIED'')]))
       = [(''A1'', False)]
   \<and> overlay_occupied
         [(''A1'', s_status (sample_slot ''A1'' JUndefined (JStr ''OCCUPIED'')))] ''A1'' = True"
proof -
  have ai: "array_index ''A1'' = None"
    by (simp add: array_index_def is_digit_def)
  have a: "truthy (s_isOccupied (normalize_slot (sample_slot ''A1'' JUndefined (JStr ''OCCUPIED'')))) = False"
    by (simp add: normalize_slot_truthy sample_slot_def)
  have b: "map (\<lambda>(k, s). (k, truthy (s_isOccupied s)))
         (currentSlotsMap_of (SlotArray [sample_slot ''A1'' JUndefined (JStr ''OCCUPIED'')]))
       = [(''A1'', False)]"
    using a by (simp add: currentSlotsMap_of_def array_step_def js_set_def ai js_or_def
        sample_slot_def Let_def)
  have c: "overlay_occupied
         [(''A1'', s_status (sample_slot ''A1'' JUndefined (JStr ''OCCUPIED'')))] ''A1'' = True"
    by (simp add: overlay_occupied_single sample_slot_def)
  show ?thesis using a b c by (intro conjI)
qed

section \<open>Properties of the state diffing\<close>

lemma addNotification_notifications:
  "notifications (addNotification ty msg dat st)
     = \<lparr>n_id = next_id st, n_type = ty, n_message = msg, n_data = dat\<rparr> # notifications st"
  by (simp add: addNotification_def)

lemma emitted_append:
  "notifications st' = rev ns @ notifications st \<Longrightarrow> emitted st st' = ns"
  by (simp add: emitted_def)

lemma same_violation_iff:
  "same_violation v p \<longleftrightarrow>
     v_id p = v_id v \<or> (v_license_plate p = v_license_plate v \<and> v_timestamp p = v_timestamp v)"
  by (simp add: same_violation_def strict_eq_def)

lemma violation_change_step:
  "\<exists>ns. notifications (violation_change prev st v) = ns @ notifications st
        \<and> map (\<lambda>n. (n_type n, n_data n)) ns
            = map (\<lambda>v. (illegal_parking,
                        ViolationData (v_id v) (v_zone v) (v_license_plate v) (v_timestamp v) ''HIGH''))
                (filter (\<lambda>v. \<not> list_ex (same_violation v) prev) [v])"
proof (cases "list_ex (same_violation v) prev")
  case True
  then have "notifications (violation_change prev st v) = [] @ notifications st"
    by (simp add: violation_change_def)
  then show ?thesis using True by (intro exI [of _ "[]"]) simp
next
  case False
  let ?n = "\<lparr>n_id = next_id st, n_type = illegal_parking,
              n_message = warning_sign @ '' Illegal Parking Violation: ''
                @ to_string (js_or (v_license_plate v) (JStr ''Unknown''))
                @ '' in '' @ to_string (js_or (v_zone v) (JStr ''restricted zone'')),
              n_data = ViolationData (v_id v) (v_zone v) (v_license_plate v) (v_timestamp v) ''HIGH''\<rparr>"
  have "notifications (violation_change prev st v) = [?n] @ notifications st"
    using False by (simp add: violation_change_def addNotification_notifications)
  then show ?thesis using False by (intro exI [of _ "[?n]"]) simp
qed

lemma violation_change_fold:
  "\<exists>ns. notifications (foldl (violation_change prev) st vs) = rev ns @ notifications st
        \<and> map (\<lambda>n. (n_type n, n_data n)) ns
            = map (\<lambda>v. (illegal_parking,
                        ViolationData (v_id v) (v_zone v) (v_license_plate v) (v_timestamp v) ''HIGH''))
                (filter (\<lambda>v. \<not> list_ex (same_violation v) prev) vs)"
proof (induction vs arbitrary: st)
  case Nil
  show ?case by (intro exI [of _ "[]"]) simp
next
  case (Cons v vs)
  let ?f = "\<lambda>n. (n_type n, n_data n)"
  let ?g = "\<lambda>v. (illegal_parking,
                 ViolationData (v_id v) (v_zone v) (v_license_plate v) (v_timestamp v) ''HIGH'')"
  let ?new = "\<lambda>v. \<not> list_ex (same_violation v) prev"
  obtain n1 where s1: "notifications (violation_change prev st v) = n1 @ notifications st"
    and m1: "map ?f n1 = map ?g (filter ?new [v])"
    using violation_change_step [of prev st v] by blast
  obtain n2 where s2: "notifications (foldl (violation_change prev) (violation_change prev st v) vs)
        = rev n2 @ notifications (violation_change prev st v)"
    and m2: "map ?f n2 = map ?g (filter ?new vs)"
    using Cons.IH [of "violation_change prev st v"] by blast
  have "length (map ?f n1) \<le> 1" unfolding m1 by simp
  then have len: "length n1 \<le> 1" by simp
  then have r: "rev n1 = n1" by (cases n1) simp_all
  have a: "notifications (foldl (violation_change prev) st (v # vs))
             = rev (n1 @ n2) @ notifications st"
    by (simp add: s2 s1 r)
  have "filter ?new (v # vs) = filter ?new [v] @ filter ?new vs" by simp
  then have b: "map ?f (n1 @ n2) = map ?g (filter ?new (v # vs))"
    by (simp only: map_append m1 m2)
  show ?case using a b by (intro exI [of _ "n1 @ n2"] conjI)
qed

lemma checkViolationChanges_notifications:
  "\<exists>ns. notifications (checkViolationChanges (ViolationArray vs) st) = rev ns @ notifications st
        \<and> map (\<lambda>n. (n_type n, n_data n)) ns
            = map (\<lambda>v. (illegal_parking,
                        ViolationData (v_id v) (v_zone v) (v_license_plate v) (v_timestamp v) ''HIGH''))
                (filter (\<lambda>v. \<not> list_ex (same_violation v) (prevViolations st)) vs)"
  using violation_change_fold [of "prevViolations st" st vs]
  by (simp add: checkViolationChanges_def Let_def)

lemma new_violation_iff:
  "(\<lambda>v. \<not> list_ex (same_violation v) prev)
     = (\<lambda>v. \<forall>p \<in> set prev. v_id p \<noteq> v_id v
               \<and> (v_license_plate p \<noteq> v_license_plate v \<or> v_timestamp p \<noteq> v_timestamp v))"
  by (auto simp: fun_eq_iff list_ex_iff same_violation_iff)

text \<open>
  Claim C2, as the code has it, for violations that carry an id. \<open>checkViolationChanges\<close>
  puts one \<open>illegal_parking\<close> notification in front of the list for each violation of the
  current list, in order, that no previous violation matches, and none for a violation
  that some previous violation matches; a previous violation matches when it has the same
  id, or when its license plate and its timestamp are both the same, whatever the ids. When
  the current list is the previous list followed by one entry that no previous violation
  matches, exactly one notification is added. Afterwards the current list is the previous
  one.
\<close>

theorem checkViolationChanges_events:
  assumes "\<forall>v \<in> set (prevViolations st) \<union> set vs. v_id v \<noteq> JUndefined \<and> v_id v \<noteq> JNull"
  shows "map (\<lambda>n. (n_type n, n_data n)) (emitted st (checkViolationChanges (ViolationArray vs) st))
           = map (\<lambda>v. (illegal_parking,
                        ViolationData (v_id v) (v_zone v) (v_license_plate v) (v_timestamp v) ''HIGH''))
               (filter (\<lambda>v. \<forall>p \<in> set (prevViolations st). v_id p \<noteq> v_id v
                          \<and> (v_license_plate p \<noteq> v_license_plate v \<or> v_timestamp p \<noteq> v_timestamp v))
                  vs)
     \<and> notifications (checkViolationChanges (ViolationArray vs) st)
           = rev (emitted st (checkViolationChanges (ViolationArray vs) st)) @ notifications st
     \<and> prevViolations (checkViolationChanges (ViolationArray vs) st) = vs
     \<and> activeViolations (checkViolationChanges (ViolationArray vs) st) = vs
     \<and> (vs = prevViolations st @ [new]
          \<and> (\<forall>p \<in> set (prevViolations st). v_id p \<noteq> v_id new
                \<and> (v_license_plate p \<noteq> v_license_plate new \<or> v_timestamp p \<noteq> v_timestamp new))
          \<longrightarrow> length (emitted st (checkViolationChanges (ViolationArray vs) st)) = 1)"
proof -
  let ?st' = "checkViolationChanges (ViolationArray vs) st"
  let ?f = "\<lambda>n. (n_type n, n_data n)"
  let ?g = "\<lambda>v. (illegal_parking,
                 ViolationData (v_id v) (v_zone v) (v_license_plate v) (v_timestamp v) ''HIGH'')"
  let ?new = "\<lambda>v. \<forall>p \<in> set (prevViolations st). v_id p \<noteq> v_id v
                  \<and> (v_license_plate p \<noteq> v_license_plate v \<or> v_timestamp p \<noteq> v_timestamp v)"
  obtain ns where n: "notifications ?st' = rev ns @ notifications st"
    and m: "map ?f ns = map ?g (filter ?new vs)"
    using checkViolationChanges_notifications [of vs st] unfolding new_violation_iff by blast
  have e: "emitted st ?st' = ns" using n by (rule emitted_append)
  have a: "map ?f (emitted st ?st') = map ?g (filter ?new vs)" unfolding e by (rule m)
  have b: "notifications ?st' = rev (emitted st ?st') @ notifications st" unfolding e by (rule n)
  have c: "prevViolations ?st' = vs" and c': "activeViolations ?st' = vs"
    by (simp_all add: checkViolationChanges_def Let_def)
  have d: "vs = prevViolations st @ [new] \<and> ?new new \<longrightarrow> length (emitted st ?st') = 1"
  proof
    assume h: "vs = prevViolations st @ [new] \<and> ?new new"
    have "filter ?new (prevViolations st) = []"
      by (auto simp: filter_empty_conv)
    then have "filter ?new vs = [new]" using h by simp
    then have "length (map ?f (emitted st ?st')) = 1" unfolding a by simp
    then show "length (emitted st ?st') = 1" by simp
  qed
  show ?thesis using a b c c' d by (intro conjI)
qed

theorem checkViolationChanges_events_witness:
  "map v_id (prevViolations (sample_state [] [sample_violation 1 ''BP-1'' ''t1''])
             @ [sample_violation 1 ''BP-1'' ''t1'', sample_violation 3 ''BP-2'' ''t2''])
     = [JNum 1, JNum 1, JNum 3]
   \<and> map (\<lambda>n. (n_type n, n_data n))
        (emitted (sample_state [] [sample_violation 1 ''BP-1'' ''t1''])
           (checkViolationChanges
              (ViolationArray [sample_violation 1 ''BP-1'' ''t1'', sample_violation 3 ''BP-2'' ''t2''])
              (sample_state [] [sample_violation 1 ''BP-1'' ''t1''])))
      = [(illegal_parking, ViolationData (JNum 3) (JStr ''Z1'') (JStr ''BP-2'') (JStr ''t2'') ''HIGH'')]"
proof -
  let ?st = "sample_state [] [sample_violation 1 ''BP-1'' ''t1'']"
  let ?vs = "[sample_violation 1 ''BP-1'' ''t1'', sample_violation 3 ''BP-2'' ''t2'']"
  have p: "prevViolations ?st = [sample_violation 1 ''BP-1'' ''t1'']"
    by (simp add: sample_state_def)
  have h: "\<forall>v \<in> set (prevViolations ?st) \<union> set ?vs. v_id v \<noteq> JUndefined \<and> v_id v \<noteq> JNull"
    unfolding p by (simp add: sample_violation_def)
  have "map (\<lambda>n. (n_type n, n_data n)) (emitted ?st (checkViolationChanges (ViolationArray ?vs) ?st))
      = [(illegal_parking, ViolationData (JNum 3) (JStr ''Z1'') (JStr ''BP-2'') (JStr ''t2'') ''HIGH'')]"
    using checkViolationChanges_events [OF h, THEN conjunct1, unfolded p]
    by (simp add: sample_violation_def)
  moreover have "map v_id (prevViolations ?st @ ?vs) = [JNum 1, JNum 1, JNum 3]"
    unfolding p by (simp add: sample_violation_def)
  ultimately show ?thesis by (intro conjI)
qed

text \<open>
  The current list is the previous list plus one entry with a fresh id, and no notification
  is added: the new entry has the license plate and the timestamp of a previous one.
\<close>

theorem fresh_id_same_plate_not_notified:
  "emitted (sample_state [] [sample_violation 1 ''BP-1'' ''t1''])
     (checkViolationChanges
        (ViolationArray ([sample_violation 1 ''BP-1'' ''t1''] @ [sample_violation 2 ''BP-1'' ''t1'']))
        (sample_state [] [sample_violation 1 ''BP-1'' ''t1''])) = []
   \<and> prevViolations (sample_state [] [sample_violation 1 ''BP-1'' ''t1''])
       = [sample_violation 1 ''BP-1'' ''t1'']
   \<and> v_id (sample_violation 2 ''BP-1'' ''t1'') \<noteq> v_id (sample_violation 1 ''BP-1'' ''t1'')"
  by (simp add: checkViolationChanges_def violation_change_def same_violation_def strict_eq_def
      sample_state_def sample_violation_def emitted_def Let_def)

text \<open>
  Two violations that both lack an id pass the first test of the comparison, since
  \<open>undefined === undefined\<close> holds; the theorem above is about violations with ids.
\<close>

lemma absent_ids_match:
  "v_id p = JUndefined \<Longrightarrow> v_id v = JUndefined \<Longrightarrow> same_violation v p"
  by (simp add: same_violation_iff)



















end
